theory Spec2Isabelle
  imports Main "HOL-Library.Word" "HOL-Library.AList" "HOL-Library.Sublist"
begin

section \<open>The chat relay of main.go\<close>

text \<open>
  The server keeps three package-level stores (\<open>users\<close>, \<open>messages\<close>, \<open>sessions\<close>), the
  counter \<open>msgID\<close> and two mutexes. Every WebSocket connection is served by its own
  goroutine running \<open>wsHandler\<close>; two HTTP handlers read the stores.

  Strings are Go strings, that is byte sequences: \<open>string\<close> is \<open>char list\<close> and a \<open>char\<close>
  is one byte. A \<open>*websocket.Conn\<close> is identified by a number. \<open>time.Time\<close> values are
  opaque instants handed in by the environment whenever the code calls \<open>time.Now()\<close>.
\<close>

subsection \<open>Data\<close>

type_synonym conn = nat
type_synonym time = nat

record User =
  Username :: string
  User_Avatar :: string
  WS :: conn

record Message =
  ID :: "64 word"
  From :: string
  To :: string
  Content :: string
  Timestamp :: time
  IsRead :: bool
  Avatar :: string

record Session =
  Session_ID :: string
  Name :: string
  Session_Avatar :: string
  IsGroup :: bool
  LastMsg :: string
  LastTime :: time
  Unread :: int

text \<open>
  The control point of one \<open>wsHandler\<close> goroutine, with its local variables \<open>username\<close>
  and \<open>msg\<close> where they are live. \<open>Locking\<close> is line 110 (about to call
  \<open>msgMu.Lock()\<close>), \<open>Updating\<close> line 120, \<open>Broadcasting\<close> line 129, \<open>Echoing\<close> line 131.
  \<open>Unwinding\<close> is a goroutine whose body has panicked and whose deferred calls have not
  run yet; \<open>Panicked\<close> is the same goroutine after they ran.
\<close>

datatype pc =
    Handshake
  | Active string
  | Locking string Message
  | Updating string Message
  | Broadcasting string Message
  | Echoing string Message
  | Unwinding string
  | Closed
  | Panicked

text \<open>The \<open>username\<close> a handler holds, once its handshake has succeeded and until it ends.\<close>

fun username_of :: "pc \<Rightarrow> string option" where
  "username_of Handshake = None"
| "username_of (Active u) = Some u"
| "username_of (Locking u m) = Some u"
| "username_of (Updating u m) = Some u"
| "username_of (Broadcasting u m) = Some u"
| "username_of (Echoing u m) = Some u"
| "username_of (Unwinding u) = Some u"
| "username_of Closed = None"
| "username_of Panicked = None"

text \<open>
  The shared state. \<open>users\<close> is the Go map, kept as an association list whose order
  stands for one of the iteration orders Go may choose; \<open>msgMu\<close> is true while the mutex
  is held. \<open>userMu\<close> has no field: each of its critical sections is one step below and
  none of them can leave it held. \<open>sent\<close> records every \<open>websocket.JSON.Send\<close> in the
  order the calls are made (the code ignores their results).
\<close>

record server =
  users :: "(string \<times> User) list"
  messages :: "Message list"
  sessions :: "Session list"
  msgMu :: bool
  msgID :: "64 word"
  handlers :: "conn \<Rightarrow> pc"
  sent :: "(conn \<times> Message) list"

datatype panic = IndexOutOfRange

subsection \<open>Start-up: the package variables and \<open>init\<close>\<close>

definition public_chat :: "time \<Rightarrow> Session" where
  "public_chat now =
     \<lparr>Session_ID = ''public-chat'',
      Name = [CHR 0xE5, CHR 0x85, CHR 0xAC, CHR 0xE5, CHR 0x85, CHR 0xB1, CHR 0xE8, CHR 0x81,
              CHR 0x8A, CHR 0xE5, CHR 0xA4, CHR 0xA9, CHR 0xE5, CHR 0xAE, CHR 0xA4],
      Session_Avatar = ''https://img.icons8.com/fluency/96/000000/chat.png'',
      IsGroup = True,
      LastMsg = [CHR 0xE6, CHR 0xAC, CHR 0xA2, CHR 0xE8, CHR 0xBF, CHR 0x8E, CHR 0xE5, CHR 0x8A,
                 CHR 0xA0, CHR 0xE5, CHR 0x85, CHR 0xA5, CHR 0xE5, CHR 0x85, CHR 0xAC, CHR 0xE5,
                 CHR 0x85, CHR 0xB1, CHR 0xE8, CHR 0x81, CHR 0x8A, CHR 0xE5, CHR 0xA4, CHR 0xA9,
                 CHR 0xE5, CHR 0xAE, CHR 0xA4],
      LastTime = now,
      Unread = 0\<rparr>"

definition init :: "time \<Rightarrow> server" where
  "init now =
     \<lparr>users = [], messages = [], sessions = [] @ [public_chat now], msgMu = False,
      msgID = 1, handlers = (\<lambda>_. Handshake), sent = []\<rparr>"

subsection \<open>Conversions and the registry\<close>

text \<open>
  Go's \<open>string(b)\<close> for a byte \<open>b\<close> is the UTF-8 encoding of the code point \<open>b\<close>: the byte
  itself below 128, two bytes from 128 on.
\<close>

definition string_of_byte :: "char \<Rightarrow> string" where
  "string_of_byte b =
     (let n = (of_char b :: nat)
      in if n < 128 then [b] else [char_of (192 + n div 64), char_of (128 + n mod 64)])"

text \<open>Lines 82-93: the handshake frame, then the registration under \<open>userMu\<close>.\<close>

definition handshake :: "server \<Rightarrow> conn \<Rightarrow> string option \<Rightarrow> server" where
  "handshake s ws r =
     (case r of
        None \<Rightarrow> s\<lparr>handlers := (handlers s)(ws := Closed)\<rparr>
      | Some [] \<Rightarrow> s\<lparr>handlers := (handlers s)(ws := Closed)\<rparr>
      | Some (b # bs) \<Rightarrow>
          s\<lparr>users := AList.update (b # bs)
                      \<lparr>Username = b # bs, User_Avatar = string_of_byte b, WS = ws\<rparr> (users s),
            handlers := (handlers s)(ws := Active (b # bs))\<rparr>)"

text \<open>Lines 96-100: the deferred deregistration, \<open>delete(users, username)\<close>.\<close>

definition deregister :: "string \<Rightarrow> server \<Rightarrow> server" where
  "deregister username s = s\<lparr>users := AList.delete username (users s)\<rparr>"

subsection \<open>One iteration of the receive loop\<close>

text \<open>
  Lines 110-117, entered with the mutex free. The index expression \<open>msg.From[0]\<close> of
  line 115 panics on the empty string; \<open>msgMu.Unlock()\<close> of line 117 is not deferred,
  so the panic leaves the mutex held, after line 112 has already advanced \<open>msgID\<close>.
\<close>

definition stamp_append ::
    "server \<Rightarrow> time \<Rightarrow> Message \<Rightarrow> (panic \<times> server) + (Message \<times> server)" where
  "stamp_append s now msg =
     (let s1 = s\<lparr>msgMu := True\<rparr>;
          msg1 = msg\<lparr>ID := msgID s1\<rparr>;
          s2 = s1\<lparr>msgID := msgID s1 + 1\<rparr>;
          msg2 = msg1\<lparr>Timestamp := now\<rparr>;
          msg3 = msg2\<lparr>IsRead := False\<rparr>
      in case From msg3 of
           [] \<Rightarrow> Inl (IndexOutOfRange, s2)
         | b # _ \<Rightarrow>
             (let msg4 = msg3\<lparr>Avatar := string_of_byte b\<rparr>;
                  s3 = s2\<lparr>messages := messages s2 @ [msg4]\<rparr>
              in Inr (msg4, s3\<lparr>msgMu := False\<rparr>)))"

text \<open>Lines 120-126: the scan of \<open>sessions\<close>, which stops at the first match.\<close>

fun update_sessions :: "Session list \<Rightarrow> Message \<Rightarrow> Session list" where
  "update_sessions [] msg = []"
| "update_sessions (s # ss) msg =
     (if Session_ID s = To msg
      then s\<lparr>LastMsg := Content msg, LastTime := Timestamp msg\<rparr> # ss
      else s # update_sessions ss msg)"

text \<open>Lines 65-74: the fan-out, as the list of sends it makes.\<close>

fun fanout :: "(string \<times> User) list \<Rightarrow> Message \<Rightarrow> (conn \<times> Message) list" where
  "fanout [] msg = []"
| "fanout ((k, u) # us) msg =
     (if Username u = From msg then fanout us msg else (WS u, msg) # fanout us msg)"

definition broadcast :: "server \<Rightarrow> Message \<Rightarrow> server" where
  "broadcast s msg = s\<lparr>sent := sent s @ fanout (users s) msg\<rparr>"

subsection \<open>The goroutines as a transition system\<close>

text \<open>
  An event is one move of one goroutine. \<open>RecvIdentity\<close> and \<open>RecvFrame\<close> are the two
  receive calls returning (\<open>None\<close> is a receive error); \<open>Run ws now\<close> lets the handler
  of \<open>ws\<close> execute its next block, \<open>now\<close> being what \<open>time.Now()\<close> would return. The
  blocks are the section under \<open>msgMu\<close> (lines 110-117), the session scan (120-126),
  the fan-out under \<open>userMu\<close> (129) and the echo (131). A section under a mutex is one
  step because \<open>messages\<close> and \<open>msgID\<close> are touched under \<open>msgMu\<close> only and \<open>users\<close>
  under \<open>userMu\<close> only; the session scan and the echo hold no mutex, and any other
  goroutine may move before and after them.

  An event that does not fit the handler's control point changes nothing, and so does
  \<open>Run\<close> at line 110 while the mutex is held: the goroutine stays blocked. A panic
  ends the goroutine only (the HTTP server recovers it) after its deferred calls have
  run. Every connection starts with its handler waiting for the handshake frame.
\<close>

datatype event =
    RecvIdentity conn "string option"
  | RecvFrame conn "Message option"
  | Run conn time

definition run_block :: "server \<Rightarrow> conn \<Rightarrow> time \<Rightarrow> server" where
  "run_block s ws now =
     (case handlers s ws of
        Locking username msg \<Rightarrow>
          (if msgMu s then s
           else (case stamp_append s now msg of
                   Inl (p, s') \<Rightarrow> s'\<lparr>handlers := (handlers s')(ws := Unwinding username)\<rparr>
                 | Inr (msg', s') \<Rightarrow>
                     s'\<lparr>handlers := (handlers s')(ws := Updating username msg')\<rparr>))
      | Updating username msg \<Rightarrow>
          s\<lparr>sessions := update_sessions (sessions s) msg,
            handlers := (handlers s)(ws := Broadcasting username msg)\<rparr>
      | Broadcasting username msg \<Rightarrow>
          (let s' = broadcast s msg
           in s'\<lparr>handlers := (handlers s')(ws := Echoing username msg)\<rparr>)
      | Echoing username msg \<Rightarrow>
          s\<lparr>sent := sent s @ [(ws, msg)],
            handlers := (handlers s)(ws := Active username)\<rparr>
      | Unwinding username \<Rightarrow>
          (let s' = deregister username s
           in s'\<lparr>handlers := (handlers s')(ws := Panicked)\<rparr>)
      | _ \<Rightarrow> s)"

fun step :: "server \<Rightarrow> event \<Rightarrow> server" where
  "step s (RecvIdentity ws r) =
     (case handlers s ws of Handshake \<Rightarrow> handshake s ws r | _ \<Rightarrow> s)"
| "step s (RecvFrame ws r) =
     (case handlers s ws of
        Active username \<Rightarrow>
          (case r of
             None \<Rightarrow>
               (let s' = deregister username s
                in s'\<lparr>handlers := (handlers s')(ws := Closed)\<rparr>)
           | Some msg \<Rightarrow> s\<lparr>handlers := (handlers s)(ws := Locking username msg)\<rparr>)
      | _ \<Rightarrow> s)"
| "step s (Run ws now) = run_block s ws now"

text \<open>The server after a schedule of events, started at time \<open>t0\<close>.\<close>

definition run :: "time \<Rightarrow> event list \<Rightarrow> server" where
  "run t0 evs = foldl step (init t0) evs"

subsection \<open>The HTTP handlers\<close>

text \<open>
  What a handler wrote: the status (200 unless \<open>WriteHeader\<close> was called), the
  \<open>Content-Type\<close> header if set, and the value given to the JSON encoder, if any.
\<close>

datatype body = NoBody | SessionsJSON "Session list" | MessagesJSON "Message list"

record response =
  status :: nat
  content_type :: "string option"
  payload :: body

text \<open>Lines 136-139. No mutex is taken.\<close>

definition sessionsHandler :: "server \<Rightarrow> response" where
  "sessionsHandler s =
     \<lparr>status = 200, content_type = Some ''application/json'',
      payload = SessionsJSON (sessions s)\<rparr>"

text \<open>
  \<open>r.URL.Query()\<close> is a \<open>url.Values\<close>, a map from a key to its list of values;
  \<open>Get\<close> is the first value, or the empty string when there is none.
\<close>

definition Get :: "(string \<rightharpoonup> string list) \<Rightarrow> string \<Rightarrow> string" where
  "Get q key = (case q key of None \<Rightarrow> [] | Some [] \<Rightarrow> [] | Some (v # _) \<Rightarrow> v)"

text \<open>Lines 150-155: the loop that collects the matching messages into \<open>res\<close>.\<close>

fun collect :: "string \<Rightarrow> Message list \<Rightarrow> Message list \<Rightarrow> Message list" where
  "collect sessionID [] res = res"
| "collect sessionID (msg # msgs) res =
     (if To msg = sessionID then collect sessionID msgs (res @ [msg])
      else collect sessionID msgs res)"

text \<open>
  Lines 142-160. \<open>None\<close> is a handler that never answers: it is blocked in
  \<open>msgMu.Lock()\<close> of line 149 on a mutex that is held.
\<close>

definition messagesHandler :: "server \<Rightarrow> (string \<rightharpoonup> string list) \<Rightarrow> response option" where
  "messagesHandler s q =
     (let sessionID = Get q ''session_id''
      in if sessionID = [] then Some \<lparr>status = 400, content_type = None, payload = NoBody\<rparr>
         else if msgMu s then None
         else Some \<lparr>status = 200, content_type = Some ''application/json'',
                    payload = MessagesJSON (collect sessionID (messages s) [])\<rparr>)"

subsection \<open>One whole iteration, and the contract of the session directory\<close>

text \<open>
  Lines 104-131 for one frame when no other goroutine moves in between: the receive,
  then the four blocks. (\<open>time.Now()\<close> is read in the first block only.)
\<close>

definition loop_body :: "server \<Rightarrow> conn \<Rightarrow> Message \<Rightarrow> time \<Rightarrow> server" where
  "loop_body s ws msg now =
     foldl step s [RecvFrame ws (Some msg), Run ws now, Run ws now, Run ws now, Run ws now]"

text \<open>
  The specification's \<open>updateSummary(recipient, content, timestamp) -> bool\<close>, written
  from its own words (a linear scan; overwrite the last-message fields of the session
  found and answer true; otherwise change nothing and answer false). It is compared
  below with \<open>update_sessions\<close>, which is the loop of the source.
\<close>

fun updateSummary :: "Session list \<Rightarrow> string \<Rightarrow> string \<Rightarrow> time \<Rightarrow> bool \<times> Session list" where
  "updateSummary [] recipient content timestamp = (False, [])"
| "updateSummary (s # ss) recipient content timestamp =
     (if Session_ID s = recipient
      then (True, s\<lparr>LastMsg := content, LastTime := timestamp\<rparr> # ss)
      else (case updateSummary ss recipient content timestamp of
              (found, ss') \<Rightarrow> (found, s # ss')))"

subsection \<open>Frames and schedules used as examples\<close>

definition frame :: "string \<Rightarrow> string \<Rightarrow> string \<Rightarrow> Message" where
  "frame sender recipient content =
     \<lparr>ID = 77, From = sender, To = recipient, Content = content, Timestamp = 0,
      IsRead = True, Avatar = ''zz''\<rparr>"

definition two_clients :: "event list" where
  "two_clients = [RecvIdentity 1 (Some ''alice''), RecvIdentity 2 (Some ''bob'')]"

definition session_id_query :: "string \<Rightarrow> (string \<rightharpoonup> string list)" where
  "session_id_query v = [''session_id'' \<mapsto> [v]]"

text \<open>
  The first character of a string in the specification's sense: the bytes of its
  first UTF-8 code point (a byte that cannot start a code point counts as a character
  of its own). The source never decodes a string; this is what the avatar it computes
  is compared with below.
\<close>

definition first_character :: "string \<Rightarrow> string" where
  "first_character s =
     (case s of
        [] \<Rightarrow> []
      | b # _ \<Rightarrow>
          (let n = (of_char b :: nat)
           in take (if n < 192 then 1 else if n < 224 then 2 else if n < 240 then 3
                    else if n < 248 then 4 else 1) s))"

text \<open>A sender whose first character takes two bytes: \<open>elan\<close> with an acute accent on the e.\<close>

definition elan :: string where
  "elan = [CHR 0xC3, CHR 0xA9, CHR ''l'', CHR ''a'', CHR ''n'']"

text \<open>
  Alice and Bob are connected; Alice's client sends a frame without a sender, her
  handler runs until it has ended; then Bob sends a frame and his handler runs.
\<close>

definition empty_sender_schedule :: "event list" where
  "empty_sender_schedule =
     two_clients @
     [RecvFrame 1 (Some (frame [] ''public-chat'' ''x'')), Run 1 5, Run 1 6,
      RecvFrame 2 (Some (frame ''bob'' ''public-chat'' ''hi'')), Run 2 7]"

text \<open>
  Alice's frame has been stamped and appended and the mutex released; her handler has
  not reached line 120 yet.
\<close>

definition append_then_pause :: "event list" where
  "append_then_pause =
     two_clients @ [RecvFrame 1 (Some (frame ''alice'' ''public-chat'' ''hi'')), Run 1 5]"

text \<open>
  Alice's frame is appended, then Bob's; Bob's handler scans the sessions first,
  Alice's after it; then both handlers finish their iteration.
\<close>

definition crossed_updates :: "event list" where
  "crossed_updates =
     two_clients @
     [RecvFrame 1 (Some (frame ''alice'' ''public-chat'' ''first'')), Run 1 5,
      RecvFrame 2 (Some (frame ''bob'' ''public-chat'' ''second'')), Run 2 6,
      Run 2 6, Run 1 6,
      Run 1 7, Run 1 7, Run 2 7, Run 2 7]"

section \<open>Properties\<close>

subsection \<open>Auxiliary facts\<close>

lemmas step_defs = handshake_def run_block_def stamp_append_def deregister_def broadcast_def

lemma collect_filter: "collect r ms res = res @ filter (\<lambda>m. To m = r) ms"
  by (induction ms arbitrary: res) auto

lemma fanout_filter:
  "fanout us msg =
     map (\<lambda>e. (WS (snd e), msg)) (filter (\<lambda>e. Username (snd e) \<noteq> From msg) us)"
  by (induction us msg rule: fanout.induct) auto

lemma run_Nil: "run t0 [] = init t0"
  by (simp add: run_def)

lemma run_snoc: "run t0 (evs @ [ev]) = step (run t0 evs) ev"
  by (simp add: run_def)

lemma run_append: "run t0 (evs @ evs') = foldl step (run t0 evs) evs'"
  by (simp add: run_def)

text \<open>A step leaves the log alone or appends one stamped message to it.\<close>

lemma step_messages:
  "messages (step s ev) = messages s \<or>
   (\<exists>ws u m now b bs. ev = Run ws now \<and> handlers s ws = Locking u m \<and> \<not> msgMu s \<and>
      From m = b # bs \<and>
      messages (step s ev) =
        messages s @ [m\<lparr>ID := msgID s, Timestamp := now, IsRead := False,
                        Avatar := string_of_byte b\<rparr>] \<and>
      msgID (step s ev) = msgID s + 1 \<and> \<not> msgMu (step s ev))"
  by (cases ev) (auto simp: step_defs Let_def split: pc.splits option.splits list.splits)

lemma step_prefix: "prefix (messages s) (messages (step s ev))"
  using step_messages [of s ev] by auto

lemma foldl_step_prefix: "prefix (messages s) (messages (foldl step s evs))"
proof (induction evs arbitrary: s)
  case Nil
  show ?case by simp
next
  case (Cons ev evs)
  have "prefix (messages s) (messages (step s ev))"
    by (rule step_prefix)
  also have "prefix (messages (step s ev)) (messages (foldl step (step s ev) evs))"
    by (rule Cons.IH)
  finally show ?case by simp
qed

text \<open>
  The counter is one ahead of the log whenever the mutex is free, and the ids in the
  log are the numbers from 1 on, as 64-bit words.
\<close>

lemma step_ids:
  assumes "map ID (messages s) = map of_nat [1..<Suc (length (messages s))]"
    and "\<not> msgMu s \<longrightarrow> msgID s = of_nat (Suc (length (messages s)))"
  shows "map ID (messages (step s ev)) = map of_nat [1..<Suc (length (messages (step s ev)))] \<and>
         (\<not> msgMu (step s ev) \<longrightarrow>
            msgID (step s ev) = of_nat (Suc (length (messages (step s ev)))))"
  using assms
  by (cases ev) (auto simp: step_defs Let_def split: pc.splits option.splits list.splits)

lemma run_ids:
  "map ID (messages (run t0 evs)) = map of_nat [1..<Suc (length (messages (run t0 evs)))] \<and>
   (\<not> msgMu (run t0 evs) \<longrightarrow>
      msgID (run t0 evs) = of_nat (Suc (length (messages (run t0 evs)))))"
proof (induction evs rule: rev_induct)
  case Nil
  show ?case by (simp add: run_Nil init_def)
next
  case (snoc ev evs)
  then show ?case unfolding run_snoc by (intro step_ids) simp_all
qed

text \<open>A mutex left held stays held: nobody appends or reads the counter again.\<close>

lemma msgMu_stuck:
  "msgMu s \<Longrightarrow>
   msgMu (step s ev) \<and> messages (step s ev) = messages s \<and> msgID (step s ev) = msgID s"
  by (cases ev) (auto simp: step_defs Let_def split: pc.splits option.splits list.splits)

lemma sint_of_nat_small: "n < 2 ^ 63 \<Longrightarrow> sint (of_nat n :: 64 word) = int n"
proof -
  assume "n < 2 ^ 63"
  then have "int n < 2 ^ 63"
    by (metis of_nat_less_iff of_nat_numeral of_nat_power)
  then show ?thesis
    by (simp add: signed_of_nat signed_take_bit_int_eq_self)
qed

text \<open>An undisturbed iteration on a frame with a sender, entered with the mutex free.\<close>

lemma loop_body_ok:
  assumes "handlers s ws = Active u" and "\<not> msgMu s" and "From msg = b # bs"
  shows "loop_body s ws msg now =
     (let msg' = msg\<lparr>ID := msgID s, Timestamp := now, IsRead := False,
                     Avatar := string_of_byte b\<rparr>
      in s\<lparr>messages := messages s @ [msg'],
           msgID := msgID s + 1,
           sessions := update_sessions (sessions s) msg',
           sent := sent s @ fanout (users s) msg' @ [(ws, msg')]\<rparr>)"
proof -
  have "(handlers s)(ws := Active u) = handlers s"
    using assms(1) by auto
  then show ?thesis
    using assms by (simp add: loop_body_def step_defs Let_def)
qed

text \<open>
  The registry: keys are distinct, an entry is keyed by its own \<open>Username\<close>, and the
  connection it names is served by a handler that holds this name.
\<close>

lemma set_update_subset: "set (AList.update k v al) \<subseteq> insert (k, v) (set al)"
  by (induction al) auto

lemma set_delete: "set (AList.delete k al) = {e \<in> set al. fst e \<noteq> k}"
  by (induction al) auto

lemma filter_update_key:
  "distinct (map fst al) \<Longrightarrow> filter (\<lambda>e. fst e = k) (AList.update k v al) = [(k, v)]"
proof (induction al)
  case Nil
  show ?case by simp
next
  case (Cons p al)
  show ?case
  proof (cases "fst p = k")
    case True
    with Cons.prems have "k \<notin> fst ` set al" by simp
    then have "\<forall>e\<in>set al. fst e \<noteq> k" by blast
    then have "filter (\<lambda>e. fst e = k) al = []" by (simp add: filter_empty_conv)
    with True show ?thesis by simp
  next
    case False
    with Cons show ?thesis by simp
  qed
qed

lemma step_users:
  assumes "distinct (map fst (users s))"
    and "\<forall>e\<in>set (users s). Username (snd e) = fst e \<and>
           username_of (handlers s (WS (snd e))) = Some (fst e)"
  shows "distinct (map fst (users (step s ev))) \<and>
         (\<forall>e\<in>set (users (step s ev)). Username (snd e) = fst e \<and>
              username_of (handlers (step s ev) (WS (snd e))) = Some (fst e))"
proof (cases ev)
  case (RecvIdentity ws r)
  show ?thesis
  proof (cases "handlers s ws = Handshake \<and> (\<exists>b bs. r = Some (b # bs))")
    case True
    then obtain b bs where r: "r = Some (b # bs)" and h: "handlers s ws = Handshake"
      by auto
    let ?v = "\<lparr>Username = b # bs, User_Avatar = string_of_byte b, WS = ws\<rparr>"
    have st: "step s ev = s\<lparr>users := AList.update (b # bs) ?v (users s),
                 handlers := (handlers s)(ws := Active (b # bs))\<rparr>"
      using RecvIdentity r h by (simp add: handshake_def)
    have fresh: "\<forall>e\<in>set (users s). WS (snd e) \<noteq> ws"
      using assms(2) h by force
    have "distinct (map fst (users (step s ev)))"
      unfolding st using assms(1) by (simp add: distinct_update)
    moreover have "Username (snd e) = fst e \<and>
        username_of (handlers (step s ev) (WS (snd e))) = Some (fst e)"
      if "e \<in> set (users (step s ev))" for e
    proof -
      from that have "e = (b # bs, ?v) \<or> e \<in> set (users s)"
        unfolding st using set_update_subset [of "b # bs" ?v "users s"] by auto
      then show ?thesis
      proof
        assume "e = (b # bs, ?v)"
        then show ?thesis unfolding st by simp
      next
        assume "e \<in> set (users s)"
        with assms(2) fresh show ?thesis unfolding st by simp
      qed
    qed
    ultimately show ?thesis by blast
  next
    case False
    then have "users (step s ev) = users s \<and>
        (\<forall>c. handlers (step s ev) c = handlers s c \<or> (handlers s c = Handshake))"
      using RecvIdentity by (auto simp: handshake_def split: pc.splits option.splits list.splits)
    then have same: "users (step s ev) = users s"
      and hs: "\<And>c. handlers s c \<noteq> Handshake \<Longrightarrow> handlers (step s ev) c = handlers s c"
      by auto
    have "handlers (step s ev) (WS (snd e)) = handlers s (WS (snd e))"
      if "e \<in> set (users s)" for e
    proof (rule hs)
      from assms(2) that have "username_of (handlers s (WS (snd e))) = Some (fst e)"
        by blast
      then show "handlers s (WS (snd e)) \<noteq> Handshake" by auto
    qed
    with assms same show ?thesis by simp
  qed
next
  case (RecvFrame ws r)
  then show ?thesis using assms
    by (auto simp: step_defs Let_def set_delete distinct_delete split: pc.splits option.splits)
next
  case (Run ws now)
  then show ?thesis using assms
    by (auto simp: step_defs Let_def set_delete distinct_delete split: pc.splits list.splits)
qed

lemma run_users:
  "distinct (map fst (users (run t0 evs))) \<and>
   (\<forall>e\<in>set (users (run t0 evs)). Username (snd e) = fst e \<and>
        username_of (handlers (run t0 evs) (WS (snd e))) = Some (fst e))"
proof (induction evs rule: rev_induct)
  case Nil
  show ?case by (simp add: run_Nil init_def)
next
  case (snoc ev evs)
  then show ?case unfolding run_snoc by (intro step_users) simp_all
qed

lemma run_fanout:
  "fanout (users (run t0 evs)) m =
     map (\<lambda>e. (WS (snd e), m)) (filter (\<lambda>e. fst e \<noteq> From m) (users (run t0 evs)))"
proof -
  have "filter (\<lambda>e. Username (snd e) \<noteq> From m) (users (run t0 evs)) =
        filter (\<lambda>e. fst e \<noteq> From m) (users (run t0 evs))"
    using run_users [of t0 evs] by (intro filter_cong) auto
  then show ?thesis by (simp add: fanout_filter)
qed

text \<open>The stamped message, field by field.\<close>

lemma stamped_fields:
  "msg\<lparr>ID := i, Timestamp := t, IsRead := False, Avatar := a\<rparr> =
   \<lparr>ID = i, From = From msg, To = To msg, Content = Content msg, Timestamp = t,
    IsRead = False, Avatar = a\<rparr>"
  by (cases msg) simp

text \<open>The loop of lines 120-126 against the contract of the specification.\<close>

lemma update_sessions_refines:
  "update_sessions ss msg = snd (updateSummary ss (To msg) (Content msg) (Timestamp msg))"
  by (induction ss) (auto split: prod.splits)

lemma updateSummary_found:
  "fst (updateSummary ss r c t) \<longleftrightarrow> r \<in> Session_ID ` set ss"
  by (induction ss) (auto split: prod.splits)

lemma updateSummary_absent:
  "r \<notin> Session_ID ` set ss \<Longrightarrow> updateSummary ss r c t = (False, ss)"
  by (induction ss) auto

lemma updateSummary_present:
  "r \<in> Session_ID ` set ss \<Longrightarrow>
   \<exists>pre x post. ss = pre @ x # post \<and> r \<notin> Session_ID ` set pre \<and> Session_ID x = r \<and>
     updateSummary ss r c t = (True, pre @ x\<lparr>LastMsg := c, LastTime := t\<rparr> # post)"
proof (induction ss)
  case Nil
  then show ?case by simp
next
  case (Cons a ss)
  show ?case
  proof (cases "Session_ID a = r")
    case True
    then have "a # ss = [] @ a # ss \<and> r \<notin> Session_ID ` set [] \<and> Session_ID a = r \<and>
        updateSummary (a # ss) r c t = (True, [] @ a\<lparr>LastMsg := c, LastTime := t\<rparr> # ss)"
      by simp
    then show ?thesis by blast
  next
    case False
    with Cons.prems have "r \<in> Session_ID ` set ss" by auto
    from Cons.IH [OF this] obtain pre x post where
      "ss = pre @ x # post" "r \<notin> Session_ID ` set pre" "Session_ID x = r"
      "updateSummary ss r c t = (True, pre @ x\<lparr>LastMsg := c, LastTime := t\<rparr> # post)"
      by blast
    with False have "a # ss = (a # pre) @ x # post \<and> r \<notin> Session_ID ` set (a # pre) \<and>
        Session_ID x = r \<and>
        updateSummary (a # ss) r c t = (True, (a # pre) @ x\<lparr>LastMsg := c, LastTime := t\<rparr> # post)"
      by simp
    then show ?thesis by blast
  qed
qed

lemma updateSummary_same_sessions:
  "map (\<lambda>x. x\<lparr>LastMsg := [], LastTime := 0\<rparr>) (snd (updateSummary ss r c t)) =
   map (\<lambda>x. x\<lparr>LastMsg := [], LastTime := 0\<rparr>) ss"
  by (induction ss) (auto split: prod.splits)

subsection \<open>Message ids\<close>

text \<open>
  C2. However the goroutines are scheduled, the ids in the log, read as signed 64-bit
  integers, are 1, 2, 3, ... in the order of the log, and the log only grows at its
  end, so the order of the log is the order of the appends. The bound is the range of
  \<open>int64\<close>; a Go slice cannot be that long.
\<close>

theorem ids_sequential:
  "length (messages (run t0 evs)) < 2 ^ 63 \<Longrightarrow>
   map (\<lambda>m. sint (ID m)) (messages (run t0 evs)) =
     map int [1..<Suc (length (messages (run t0 evs)))] \<and>
   prefix (messages (run t0 evs)) (messages (run t0 (evs @ evs')))"
proof -
  let ?ms = "messages (run t0 evs)"
  assume bound: "length ?ms < 2 ^ 63"
  have ids: "map ID ?ms = map of_nat [1..<Suc (length ?ms)]"
    using run_ids [of t0 evs] by simp
  have "map (\<lambda>m. sint (ID m)) ?ms = map sint (map ID ?ms)"
    by simp
  also have "\<dots> = map (\<lambda>k. sint (of_nat k :: 64 word)) [1..<Suc (length ?ms)]"
    by (simp add: ids)
  also have "\<dots> = map int [1..<Suc (length ?ms)]"
  proof (rule map_cong [OF refl])
    fix k assume "k \<in> set [1..<Suc (length ?ms)]"
    then have "k < 2 ^ 63" using bound by auto
    then show "sint (of_nat k :: 64 word) = int k" by (rule sint_of_nat_small)
  qed
  finally have first: "map (\<lambda>m. sint (ID m)) ?ms = map int [1..<Suc (length ?ms)]" .
  have second: "prefix ?ms (messages (run t0 (evs @ evs')))"
    unfolding run_append by (rule foldl_step_prefix)
  from first second show ?thesis by simp
qed

theorem ids_sequential_witness:
  "length (messages (run 0 (two_clients @
      [RecvFrame 1 (Some (frame ''alice'' ''public-chat'' ''hi'')), Run 1 5,
       RecvFrame 2 (Some (frame ''bob'' ''public-chat'' ''ho'')), Run 2 6]))) < 2 ^ 63 \<and>
   map (\<lambda>m. sint (ID m)) (messages (run 0 (two_clients @
      [RecvFrame 1 (Some (frame ''alice'' ''public-chat'' ''hi'')), Run 1 5,
       RecvFrame 2 (Some (frame ''bob'' ''public-chat'' ''ho'')), Run 2 6]))) = [1, 2]"
  using ids_sequential [of 0 "two_clients @
      [RecvFrame 1 (Some (frame ''alice'' ''public-chat'' ''hi'')), Run 1 5,
       RecvFrame 2 (Some (frame ''bob'' ''public-chat'' ''ho'')), Run 2 6]" "[]"]
  by (simp add: run_def init_def step_defs frame_def two_clients_def Let_def)

subsection \<open>A frame without a sender\<close>

text \<open>
  C1. The source has no guard for an empty \<open>from\<close>. With Alice and Bob connected, a frame
  from Alice's client with \<open>from\<close> empty makes line 115 index the empty string: the
  block ends in a panic, with \<open>msgID\<close> already advanced to 2 and \<open>msgMu\<close> still held.
  Nothing is appended and Alice's deferred deregistration runs, but the mutex is never
  released: Bob's next frame waits at line 110 for ever, and so does every history
  request.
\<close>

theorem empty_sender_panics:
  "stamp_append (run 0 two_clients) 5 (frame [] ''public-chat'' ''x'') =
     Inl (IndexOutOfRange, (run 0 two_clients)\<lparr>msgMu := True, msgID := 2\<rparr>) \<and>
   handlers (run 0 empty_sender_schedule) 1 = Panicked \<and>
   msgMu (run 0 empty_sender_schedule) \<and>
   msgID (run 0 empty_sender_schedule) = 2 \<and>
   messages (run 0 empty_sender_schedule) = [] \<and>
   map fst (users (run 0 empty_sender_schedule)) = [''bob''] \<and>
   handlers (run 0 empty_sender_schedule) 2 =
     Locking ''bob'' (frame ''bob'' ''public-chat'' ''hi'') \<and>
   messagesHandler (run 0 empty_sender_schedule) (session_id_query ''public-chat'') = None"
  by (simp add: run_def init_def step_defs frame_def two_clients_def empty_sender_schedule_def
      messagesHandler_def Get_def session_id_query_def Let_def)

subsection \<open>The registry\<close>

text \<open>
  C6. In any reachable state, two handshakes with the same identity on two fresh
  connections leave exactly one entry for it, the one of the second connection; no
  error arises, both handlers enter their receive loop. And the registry never holds
  two entries for one identity.
\<close>

theorem register_twice_one_entry:
  assumes "handlers (run t0 evs) c1 = Handshake" and "handlers (run t0 evs) c2 = Handshake"
    and "c1 \<noteq> c2"
  shows "filter (\<lambda>e. fst e = b # bs)
           (users (run t0 (evs @ [RecvIdentity c1 (Some (b # bs)),
                                  RecvIdentity c2 (Some (b # bs))]))) =
         [(b # bs, \<lparr>Username = b # bs, User_Avatar = string_of_byte b, WS = c2\<rparr>)] \<and>
         handlers (run t0 (evs @ [RecvIdentity c1 (Some (b # bs)),
                                  RecvIdentity c2 (Some (b # bs))])) c1 = Active (b # bs) \<and>
         handlers (run t0 (evs @ [RecvIdentity c1 (Some (b # bs)),
                                  RecvIdentity c2 (Some (b # bs))])) c2 = Active (b # bs) \<and>
         distinct (map fst (users (run t1 evs')))"
proof -
  let ?s = "run t0 evs"
  have "handlers (run t0 (evs @ [RecvIdentity c1 (Some (b # bs)),
                                 RecvIdentity c2 (Some (b # bs))])) c1 = Active (b # bs) \<and>
        handlers (run t0 (evs @ [RecvIdentity c1 (Some (b # bs)),
                                 RecvIdentity c2 (Some (b # bs))])) c2 = Active (b # bs)"
    using assms by (simp add: run_append handshake_def)
  moreover
  have "users (run t0 (evs @ [RecvIdentity c1 (Some (b # bs)),
                              RecvIdentity c2 (Some (b # bs))])) =
        AList.update (b # bs)
          \<lparr>Username = b # bs, User_Avatar = string_of_byte b, WS = c2\<rparr> (users ?s)"
    using assms by (simp add: run_append handshake_def)
  moreover have "distinct (map fst (users ?s))"
    using run_users [of t0 evs] by simp
  ultimately show ?thesis
    using run_users [of t1 evs'] by (simp add: filter_update_key)
qed

theorem register_twice_one_entry_witness:
  "handlers (run 0 []) 1 = Handshake \<and> handlers (run 0 []) 2 = Handshake \<and> (1::nat) \<noteq> 2 \<and>
   users (run 0 ([] @ [RecvIdentity 1 (Some ''alice''), RecvIdentity 2 (Some ''alice'')])) =
     [(''alice'', \<lparr>Username = ''alice'', User_Avatar = ''a'', WS = 2\<rparr>)] \<and>
   filter (\<lambda>e. fst e = ''alice'')
     (users (run 0 ([] @ [RecvIdentity 1 (Some ''alice''), RecvIdentity 2 (Some ''alice'')]))) =
     [(''alice'', \<lparr>Username = ''alice'', User_Avatar = string_of_byte CHR ''a'', WS = 2\<rparr>)]"
  using register_twice_one_entry [of 0 "[]" 1 2 "CHR ''a''" "''lice''" 0 "[]"]
  by (simp add: run_def init_def step_defs string_of_byte_def)

text \<open>
  C10. The deferred deregistration deletes by name, whatever connection the entry
  holds. After two handshakes with the same identity the entry is the second
  connection's; when the first connection then closes, the identity has no entry left,
  although the second handler is still in its receive loop.
\<close>

theorem close_after_replacement_removes_entry:
  assumes "handlers s c1 = Handshake" and "handlers s c2 = Handshake" and "c1 \<noteq> c2"
  shows "map_of (users (foldl step s [RecvIdentity c1 (Some (b # bs)),
                                      RecvIdentity c2 (Some (b # bs))])) (b # bs) =
           Some \<lparr>Username = b # bs, User_Avatar = string_of_byte b, WS = c2\<rparr> \<and>
         map_of (users (foldl step s [RecvIdentity c1 (Some (b # bs)),
                                      RecvIdentity c2 (Some (b # bs)),
                                      RecvFrame c1 None])) (b # bs) = None \<and>
         handlers (foldl step s [RecvIdentity c1 (Some (b # bs)),
                                 RecvIdentity c2 (Some (b # bs)),
                                 RecvFrame c1 None]) c1 = Closed \<and>
         handlers (foldl step s [RecvIdentity c1 (Some (b # bs)),
                                 RecvIdentity c2 (Some (b # bs)),
                                 RecvFrame c1 None]) c2 = Active (b # bs)"
  using assms by (simp add: step_defs update_conv' delete_conv')

theorem close_after_replacement_removes_entry_witness:
  "handlers (init 0) 1 = Handshake \<and> handlers (init 0) 2 = Handshake \<and> (1::nat) \<noteq> 2 \<and>
   users (foldl step (init 0) [RecvIdentity 1 (Some ''alice''), RecvIdentity 2 (Some ''alice''),
                               RecvFrame 1 None]) = [] \<and>
   handlers (foldl step (init 0) [RecvIdentity 1 (Some ''alice''), RecvIdentity 2 (Some ''alice''),
                                  RecvFrame 1 None]) 2 = Active ''alice''"
  using close_after_replacement_removes_entry [of "init 0" 1 2 "CHR ''a''" "''lice''"]
  by (simp add: init_def step_defs)

subsection \<open>The history endpoint\<close>

text \<open>
  C8. A request whose query has no \<open>session_id\<close>, or has it empty, is answered with
  status 400 and nothing else: no header, no body, whatever the log holds and whether
  or not the mutex is free (the handler returns before line 149).
\<close>

theorem messagesHandler_missing_session_id:
  "q ''session_id'' = None \<or> q ''session_id'' = Some [] \<or> q ''session_id'' = Some ([] # vs) \<Longrightarrow>
   messagesHandler s q = Some \<lparr>status = 400, content_type = None, payload = NoBody\<rparr>"
  by (auto simp: messagesHandler_def Get_def)

theorem messagesHandler_missing_session_id_witness:
  "messages (run 0 (two_clients @
      [RecvFrame 1 (Some (frame ''alice'' ''public-chat'' ''hi'')), Run 1 5])) \<noteq> [] \<and>
   (Map.empty :: string \<rightharpoonup> string list) ''session_id'' = None \<and>
   messagesHandler (run 0 (two_clients @
      [RecvFrame 1 (Some (frame ''alice'' ''public-chat'' ''hi'')), Run 1 5])) Map.empty =
     Some \<lparr>status = 400, content_type = None, payload = NoBody\<rparr>"
  using messagesHandler_missing_session_id [of Map.empty "[]"
      "run 0 (two_clients @
         [RecvFrame 1 (Some (frame ''alice'' ''public-chat'' ''hi'')), Run 1 5])"]
  by (simp add: run_def init_def step_defs frame_def two_clients_def Let_def)

text \<open>
  C4. The claim fails for the empty recipient: a client may leave \<open>to\<close> empty, the
  message is logged, and the history of that recipient is refused with status 400
  instead of being returned.
\<close>

theorem history_of_empty_recipient_counterexample:
  "\<not> msgMu (loop_body (run 0 two_clients) 1 (frame ''alice'' [] ''hi'') 5) \<and>
   filter (\<lambda>m. To m = []) (messages (loop_body (run 0 two_clients) 1 (frame ''alice'' [] ''hi'') 5)) =
     [\<lparr>ID = 1, From = ''alice'', To = [], Content = ''hi'', Timestamp = 5, IsRead = False,
       Avatar = ''a''\<rparr>] \<and>
   Get (session_id_query []) ''session_id'' = [] \<and>
   messagesHandler (loop_body (run 0 two_clients) 1 (frame ''alice'' [] ''hi'') 5)
       (session_id_query []) =
     Some \<lparr>status = 400, content_type = None, payload = NoBody\<rparr>"
  by (simp add: run_def init_def step_defs frame_def two_clients_def string_of_byte_def
      loop_body_def Get_def session_id_query_def messagesHandler_def Let_def)

text \<open>
  C4, amended. For a recipient that is not the empty string, and with the mutex free,
  the answer is status 200 with exactly the logged messages addressed to that
  recipient, in log order; when none matches, the list is empty and the status is
  still 200. (\<open>res\<close> is then a nil slice, which the JSON encoder, outside this model,
  prints as \<open>null\<close>.)
\<close>

theorem history_is_filtered_log:
  assumes "\<not> msgMu s" and "Get q ''session_id'' = r" and "r \<noteq> []"
  shows "messagesHandler s q =
           Some \<lparr>status = 200, content_type = Some ''application/json'',
                 payload = MessagesJSON (filter (\<lambda>m. To m = r) (messages s))\<rparr> \<and>
         ((\<forall>m\<in>set (messages s). To m \<noteq> r) \<longrightarrow>
            messagesHandler s q =
              Some \<lparr>status = 200, content_type = Some ''application/json'',
                    payload = MessagesJSON []\<rparr>)"
proof -
  have "messagesHandler s q =
           Some \<lparr>status = 200, content_type = Some ''application/json'',
                 payload = MessagesJSON (filter (\<lambda>m. To m = r) (messages s))\<rparr>"
    using assms by (simp add: messagesHandler_def collect_filter)
  moreover have "filter (\<lambda>m. To m = r) (messages s) = []" if "\<forall>m\<in>set (messages s). To m \<noteq> r"
    using that by (simp add: filter_empty_conv)
  ultimately show ?thesis by simp
qed

theorem history_is_filtered_log_witness:
  "\<not> msgMu (loop_body (loop_body (run 0 two_clients) 1 (frame ''alice'' ''public-chat'' ''hi'') 5)
              2 (frame ''bob'' ''alice'' ''psst'') 6) \<and>
   Get (session_id_query ''alice'') ''session_id'' = ''alice'' \<and> ''alice'' \<noteq> [] \<and>
   messagesHandler (loop_body (loop_body (run 0 two_clients) 1 (frame ''alice'' ''public-chat'' ''hi'') 5)
              2 (frame ''bob'' ''alice'' ''psst'') 6) (session_id_query ''alice'') =
     Some \<lparr>status = 200, content_type = Some ''application/json'',
           payload = MessagesJSON [\<lparr>ID = 2, From = ''bob'', To = ''alice'', Content = ''psst'',
                                    Timestamp = 6, IsRead = False, Avatar = ''b''\<rparr>]\<rparr>"
  using history_is_filtered_log [of
      "loop_body (loop_body (run 0 two_clients) 1 (frame ''alice'' ''public-chat'' ''hi'') 5)
              2 (frame ''bob'' ''alice'' ''psst'') 6" "session_id_query ''alice''" "''alice''"]
  by (simp add: run_def init_def step_defs frame_def two_clients_def string_of_byte_def
      loop_body_def Get_def session_id_query_def Let_def)

subsection \<open>Stamping, fan-out and echo\<close>

text \<open>
  C7. The claim fails for a sender whose first character is not ASCII: line 115 takes
  the first byte of \<open>from\<close>, not its first character, and \<open>string\<close> of a byte is the
  UTF-8 encoding of the code point with that number. A client registered as \<open>elan\<close>
  with an acute accent on the e (bytes C3 A9 6C 61 6E) sends a frame under that name:
  the message logged and echoed has the avatar C3 83, an A with a tilde, while the
  first character of the sender is C3 A9.
\<close>

theorem avatar_of_multibyte_sender_counterexample:
  "handlers (run 0 [RecvIdentity 1 (Some elan)]) 1 = Active elan \<and>
   \<not> msgMu (run 0 [RecvIdentity 1 (Some elan)]) \<and>
   first_character elan = [CHR 0xC3, CHR 0xA9] \<and>
   messages (loop_body (run 0 [RecvIdentity 1 (Some elan)]) 1 (frame elan ''public-chat'' ''hi'') 5) =
     [\<lparr>ID = 1, From = elan, To = ''public-chat'', Content = ''hi'', Timestamp = 5,
       IsRead = False, Avatar = [CHR 0xC3, CHR 0x83]\<rparr>] \<and>
   sent (loop_body (run 0 [RecvIdentity 1 (Some elan)]) 1 (frame elan ''public-chat'' ''hi'') 5) =
     [(1, \<lparr>ID = 1, From = elan, To = ''public-chat'', Content = ''hi'', Timestamp = 5,
           IsRead = False, Avatar = [CHR 0xC3, CHR 0x83]\<rparr>)] \<and>
   [CHR 0xC3, CHR 0x83] \<noteq> first_character elan"
  by (simp add: run_def init_def step_defs frame_def elan_def string_of_byte_def
      loop_body_def first_character_def char_of_def bit_Suc_0_iff Let_def)

text \<open>
  C7, amended. In a reachable state with the mutex free, an undisturbed iteration on a
  frame with a sender keeps \<open>from\<close>, \<open>to\<close> and \<open>content\<close> and replaces the rest: the id is the
  number of logged messages plus one, the timestamp is the current time, the read flag
  is false and the avatar is \<open>string(msg.From[0])\<close>: the first byte itself when it is
  below 128, and then it is the sender's first character; otherwise the two bytes that
  encode the code point numbered by the first byte. This one message is what is
  appended to the log, sent to the other registered identities and echoed.
\<close>

theorem server_stamps_message:
  assumes "handlers (run t0 evs) ws = Active u" and "\<not> msgMu (run t0 evs)"
    and "From msg = b # bs"
    and "msg' = \<lparr>ID = of_nat (Suc (length (messages (run t0 evs)))), From = From msg,
                 To = To msg, Content = Content msg, Timestamp = now, IsRead = False,
                 Avatar = (if of_char b < (128 :: nat) then [b]
                           else [char_of (192 + (of_char b :: nat) div 64),
                                 char_of (128 + (of_char b :: nat) mod 64)])\<rparr>"
  shows "messages (loop_body (run t0 evs) ws msg now) = messages (run t0 evs) @ [msg'] \<and>
         sent (loop_body (run t0 evs) ws msg now) =
           sent (run t0 evs) @
           map (\<lambda>e. (WS (snd e), msg'))
               (filter (\<lambda>e. fst e \<noteq> From msg) (users (run t0 evs))) @
           [(ws, msg')] \<and>
         (of_char b < (128 :: nat) \<longrightarrow> Avatar msg' = first_character (From msg))"
proof -
  let ?s = "run t0 evs"
  have id: "msgID ?s = of_nat (Suc (length (messages ?s)))"
    using run_ids [of t0 evs] assms(2) by simp
  have "msg\<lparr>ID := msgID ?s, Timestamp := now, IsRead := False,
               Avatar := string_of_byte b\<rparr> =
        \<lparr>ID = msgID ?s, From = From msg, To = To msg, Content = Content msg, Timestamp = now,
         IsRead = False, Avatar = string_of_byte b\<rparr>"
    by (rule stamped_fields)
  also have "\<dots> = msg'"
    by (simp add: assms(4) id string_of_byte_def Let_def)
  finally have m: "msg\<lparr>ID := msgID ?s, Timestamp := now, IsRead := False,
               Avatar := string_of_byte b\<rparr> = msg'" .
  have "loop_body ?s ws msg now =
      ?s\<lparr>messages := messages ?s @ [msg'], msgID := msgID ?s + 1,
         sessions := update_sessions (sessions ?s) msg',
         sent := sent ?s @ fanout (users ?s) msg' @ [(ws, msg')]\<rparr>"
    using loop_body_ok [OF assms(1-3), of now] unfolding Let_def m .
  moreover have "From msg' = From msg"
    by (simp add: assms(4))
  moreover have "of_char b < (128 :: nat) \<longrightarrow> Avatar msg' = first_character (From msg)"
    by (simp add: assms(3,4) first_character_def)
  ultimately show ?thesis
    using run_fanout [of t0 evs msg'] by simp
qed

theorem server_stamps_message_witness:
  "handlers (run 0 two_clients) 1 = Active ''alice'' \<and> \<not> msgMu (run 0 two_clients) \<and>
   From (frame ''alice'' ''public-chat'' ''hi'') = CHR ''a'' # ''lice'' \<and>
   of_char CHR ''a'' < (128 :: nat) \<and>
   ID (frame ''alice'' ''public-chat'' ''hi'') = 77 \<and>
   IsRead (frame ''alice'' ''public-chat'' ''hi'') \<and>
   Avatar (frame ''alice'' ''public-chat'' ''hi'') = ''zz'' \<and>
   first_character ''alice'' = ''a'' \<and>
   messages (loop_body (run 0 two_clients) 1 (frame ''alice'' ''public-chat'' ''hi'') 5) =
     [\<lparr>ID = 1, From = ''alice'', To = ''public-chat'', Content = ''hi'', Timestamp = 5,
       IsRead = False, Avatar = ''a''\<rparr>] \<and>
   sent (loop_body (run 0 two_clients) 1 (frame ''alice'' ''public-chat'' ''hi'') 5) =
     [(2, \<lparr>ID = 1, From = ''alice'', To = ''public-chat'', Content = ''hi'', Timestamp = 5,
           IsRead = False, Avatar = ''a''\<rparr>),
      (1, \<lparr>ID = 1, From = ''alice'', To = ''public-chat'', Content = ''hi'', Timestamp = 5,
           IsRead = False, Avatar = ''a''\<rparr>)] \<and>
   LastMsg (hd (sessions (loop_body (run 0 two_clients) 1
                            (frame ''alice'' ''public-chat'' ''hi'') 5))) = ''hi'' \<and>
   messages (loop_body (run 0 [RecvIdentity 1 (Some elan)]) 1
               (frame elan ''public-chat'' ''hi'') 5) =
     [\<lparr>ID = 1, From = elan, To = ''public-chat'', Content = ''hi'', Timestamp = 5,
       IsRead = False, Avatar = [CHR 0xC3, CHR 0x83]\<rparr>]"
  using server_stamps_message [of 0 two_clients 1 "''alice''"
      "frame ''alice'' ''public-chat'' ''hi''" "CHR ''a''" "''lice''"
      "\<lparr>ID = 1, From = ''alice'', To = ''public-chat'', Content = ''hi'', Timestamp = 5,
        IsRead = False, Avatar = ''a''\<rparr>" 5]
    server_stamps_message [of 0 "[RecvIdentity 1 (Some elan)]" 1 elan
      "frame elan ''public-chat'' ''hi''" "CHR 0xC3" "[CHR 0xA9, CHR ''l'', CHR ''a'', CHR ''n'']"
      "\<lparr>ID = 1, From = elan, To = ''public-chat'', Content = ''hi'', Timestamp = 5,
        IsRead = False, Avatar = [CHR 0xC3, CHR 0x83]\<rparr>" 5]
  by (simp add: run_def init_def step_defs frame_def two_clients_def string_of_byte_def
      loop_body_def public_chat_def first_character_def elan_def char_of_def bit_Suc_0_iff
      Let_def)

text \<open>
  C3. The claim fails when the \<open>from\<close> of a frame is not the identity of the connection
  it arrives on, which nothing in the code checks. Alice's connection 1 sends a frame
  with \<open>from\<close> "bob": the fan-out skips Bob's entry and reaches Alice's own, and the echo
  goes to connection 1 as well. Bob's connection 2, the connection of the sender named
  in the message, gets nothing; connection 1 gets the message twice.
\<close>

theorem echo_to_named_sender_counterexample:
  "handlers (run 0 two_clients) 1 = Active ''alice'' \<and>
   map_of (users (run 0 two_clients)) ''bob'' =
     Some \<lparr>Username = ''bob'', User_Avatar = ''b'', WS = 2\<rparr> \<and>
   sent (run 0 two_clients) = [] \<and>
   sent (loop_body (run 0 two_clients) 1 (frame ''bob'' ''public-chat'' ''hi'') 5) =
     [(1, \<lparr>ID = 1, From = ''bob'', To = ''public-chat'', Content = ''hi'', Timestamp = 5,
           IsRead = False, Avatar = ''b''\<rparr>),
      (1, \<lparr>ID = 1, From = ''bob'', To = ''public-chat'', Content = ''hi'', Timestamp = 5,
           IsRead = False, Avatar = ''b''\<rparr>)]"
  by (simp add: run_def init_def step_defs frame_def two_clients_def string_of_byte_def
      loop_body_def Let_def)

text \<open>
  C3, amended. In a reachable state with the mutex free, an undisturbed iteration on a
  frame with sender \<open>S\<close> sends the stamped message once to every registry entry whose
  identity differs from \<open>S\<close> and to no entry whose identity is \<open>S\<close>, and then once more, as
  the echo, to the connection the frame arrived on. When \<open>S\<close> is the identity that
  connection registered with, the echo is the only copy it gets.
\<close>

theorem fanout_and_echo:
  assumes "handlers (run t0 evs) ws = Active u" and "\<not> msgMu (run t0 evs)"
    and "From msg = b # bs"
  shows "sent (loop_body (run t0 evs) ws msg now) =
           sent (run t0 evs) @
           map (\<lambda>e. (WS (snd e),
                      msg\<lparr>ID := msgID (run t0 evs), Timestamp := now, IsRead := False,
                          Avatar := string_of_byte b\<rparr>))
               (filter (\<lambda>e. fst e \<noteq> From msg) (users (run t0 evs))) @
           [(ws, msg\<lparr>ID := msgID (run t0 evs), Timestamp := now, IsRead := False,
                      Avatar := string_of_byte b\<rparr>)] \<and>
         (From msg = u \<longrightarrow>
            filter (\<lambda>p. fst p = ws)
              (drop (length (sent (run t0 evs))) (sent (loop_body (run t0 evs) ws msg now))) =
            [(ws, msg\<lparr>ID := msgID (run t0 evs), Timestamp := now, IsRead := False,
                      Avatar := string_of_byte b\<rparr>)])"
proof -
  let ?s = "run t0 evs"
  let ?m = "msg\<lparr>ID := msgID ?s, Timestamp := now, IsRead := False,
                Avatar := string_of_byte b\<rparr>"
  have sent: "sent (loop_body ?s ws msg now) =
      sent ?s @ map (\<lambda>e. (WS (snd e), ?m)) (filter (\<lambda>e. fst e \<noteq> From msg) (users ?s)) @
      [(ws, ?m)]"
    using loop_body_ok [OF assms, of now] run_fanout [of t0 evs ?m] by (simp add: Let_def)
  have other: "WS (snd e) \<noteq> ws" if "e \<in> set (users ?s)" and "fst e \<noteq> u" for e
  proof
    assume "WS (snd e) = ws"
    moreover from that(1) have "username_of (handlers ?s (WS (snd e))) = Some (fst e)"
      using run_users [of t0 evs] by blast
    ultimately show False using assms(1) that(2) by simp
  qed
  have "filter (\<lambda>p. fst p = ws)
          (map (\<lambda>e. (WS (snd e), ?m)) (filter (\<lambda>e. fst e \<noteq> u) (users ?s))) = []"
    using other by (auto simp: filter_empty_conv)
  with sent show ?thesis by auto
qed

theorem fanout_and_echo_witness:
  "handlers (run 0 two_clients) 1 = Active ''alice'' \<and> \<not> msgMu (run 0 two_clients) \<and>
   From (frame ''alice'' ''public-chat'' ''hi'') = CHR ''a'' # ''lice'' \<and>
   sent (loop_body (run 0 two_clients) 1 (frame ''alice'' ''public-chat'' ''hi'') 5) =
     [(2, \<lparr>ID = 1, From = ''alice'', To = ''public-chat'', Content = ''hi'', Timestamp = 5,
           IsRead = False, Avatar = ''a''\<rparr>),
      (1, \<lparr>ID = 1, From = ''alice'', To = ''public-chat'', Content = ''hi'', Timestamp = 5,
           IsRead = False, Avatar = ''a''\<rparr>)]"
  using fanout_and_echo [of 0 two_clients 1 "''alice''" "frame ''alice'' ''public-chat'' ''hi''"
      "CHR ''a''" "''lice''" 5]
  by (simp add: run_def init_def step_defs frame_def two_clients_def string_of_byte_def)

subsection \<open>The session directory\<close>

text \<open>
  C5. The loop of the source computes the sessions of the specification's
  \<open>updateSummary\<close>, whose answer is true exactly when a session with the recipient's id
  exists. Without such a session the directory is returned as it was; with one, the
  first session of that id gets the two summary fields overwritten and nothing else
  changes. Summary fields apart, the directory is always the same list: no session is
  created. Hence an undisturbed iteration on a frame with a sender, addressed to an id
  that names no session, appends the stamped message, fans it out and echoes it, and
  leaves the directory unchanged.
\<close>

theorem updateSummary_only_existing_session:
  "update_sessions ss msg = snd (updateSummary ss (To msg) (Content msg) (Timestamp msg)) \<and>
   (fst (updateSummary ss r c t) \<longleftrightarrow> r \<in> Session_ID ` set ss) \<and>
   (r \<notin> Session_ID ` set ss \<longrightarrow> updateSummary ss r c t = (False, ss)) \<and>
   (r' \<in> Session_ID ` set ss \<longrightarrow>
      (\<exists>pre x post. ss = pre @ x # post \<and> r' \<notin> Session_ID ` set pre \<and> Session_ID x = r' \<and>
         updateSummary ss r' c t = (True, pre @ x\<lparr>LastMsg := c, LastTime := t\<rparr> # post))) \<and>
   map (\<lambda>x. x\<lparr>LastMsg := [], LastTime := 0\<rparr>) (snd (updateSummary ss r c t)) =
     map (\<lambda>x. x\<lparr>LastMsg := [], LastTime := 0\<rparr>) ss \<and>
   (handlers s ws = Active u \<and> \<not> msgMu s \<and> From m = b # bs \<and>
    To m \<notin> Session_ID ` set (sessions s) \<longrightarrow>
      sessions (loop_body s ws m now) = sessions s \<and>
      messages (loop_body s ws m now) =
        messages s @ [m\<lparr>ID := msgID s, Timestamp := now, IsRead := False,
                        Avatar := string_of_byte b\<rparr>] \<and>
      sent (loop_body s ws m now) =
        sent s @
        fanout (users s) (m\<lparr>ID := msgID s, Timestamp := now, IsRead := False,
                            Avatar := string_of_byte b\<rparr>) @
        [(ws, m\<lparr>ID := msgID s, Timestamp := now, IsRead := False,
                 Avatar := string_of_byte b\<rparr>)])"
proof -
  have scenario: "sessions (loop_body s ws m now) = sessions s \<and>
      messages (loop_body s ws m now) =
        messages s @ [m\<lparr>ID := msgID s, Timestamp := now, IsRead := False,
                        Avatar := string_of_byte b\<rparr>] \<and>
      sent (loop_body s ws m now) =
        sent s @
        fanout (users s) (m\<lparr>ID := msgID s, Timestamp := now, IsRead := False,
                            Avatar := string_of_byte b\<rparr>) @
        [(ws, m\<lparr>ID := msgID s, Timestamp := now, IsRead := False,
                 Avatar := string_of_byte b\<rparr>)]"
    if h: "handlers s ws = Active u" "\<not> msgMu s" "From m = b # bs"
      and absent: "To m \<notin> Session_ID ` set (sessions s)"
  proof -
    let ?m = "m\<lparr>ID := msgID s, Timestamp := now, IsRead := False, Avatar := string_of_byte b\<rparr>"
    have "To ?m \<notin> Session_ID ` set (sessions s)"
      using absent by simp
    then have "update_sessions (sessions s) ?m = sessions s"
      unfolding update_sessions_refines by (simp add: updateSummary_absent)
    then show ?thesis
      using loop_body_ok [OF h, of now] by (simp add: Let_def)
  qed
  show ?thesis
    using update_sessions_refines [of ss msg] updateSummary_found [of ss r c t]
      updateSummary_absent [of r ss c t] updateSummary_present [of r' ss c t]
      updateSummary_same_sessions [of ss r c t] scenario
    by blast
qed

theorem updateSummary_only_existing_session_witness:
  "Session_ID ` set (sessions (run 0 two_clients)) = {''public-chat''} \<and>
   handlers (run 0 two_clients) 1 = Active ''alice'' \<and> \<not> msgMu (run 0 two_clients) \<and>
   update_sessions (sessions (run 0 two_clients)) (frame ''alice'' ''public-chat'' ''hi'') =
     [(public_chat 0)\<lparr>LastMsg := ''hi'', LastTime := 0\<rparr>] \<and>
   updateSummary (sessions (run 0 two_clients)) ''nonexistent-id'' ''hi'' 5 =
     (False, [public_chat 0]) \<and>
   updateSummary (sessions (run 0 two_clients)) ''public-chat'' ''hi'' 5 =
     (True, [(public_chat 0)\<lparr>LastMsg := ''hi'', LastTime := 5\<rparr>]) \<and>
   sessions (loop_body (run 0 two_clients) 1 (frame ''alice'' ''nonexistent-id'' ''hi'') 5) =
     [public_chat 0] \<and>
   messages (loop_body (run 0 two_clients) 1 (frame ''alice'' ''nonexistent-id'' ''hi'') 5) =
     [\<lparr>ID = 1, From = ''alice'', To = ''nonexistent-id'', Content = ''hi'', Timestamp = 5,
       IsRead = False, Avatar = ''a''\<rparr>] \<and>
   sent (loop_body (run 0 two_clients) 1 (frame ''alice'' ''nonexistent-id'' ''hi'') 5) =
     [(2, \<lparr>ID = 1, From = ''alice'', To = ''nonexistent-id'', Content = ''hi'', Timestamp = 5,
           IsRead = False, Avatar = ''a''\<rparr>),
      (1, \<lparr>ID = 1, From = ''alice'', To = ''nonexistent-id'', Content = ''hi'', Timestamp = 5,
           IsRead = False, Avatar = ''a''\<rparr>)]"
  using updateSummary_only_existing_session [of "sessions (run 0 two_clients)"
      "frame ''alice'' ''public-chat'' ''hi''" "''nonexistent-id''" "''hi''" 5 "''public-chat''"
      "run 0 two_clients" 1 "''alice''" "frame ''alice'' ''nonexistent-id'' ''hi''"
      "CHR ''a''" "''lice''" 5]
  by (simp add: run_def init_def step_defs frame_def two_clients_def string_of_byte_def
      loop_body_def public_chat_def Let_def)

subsection \<open>What the mutex covers\<close>

text \<open>
  C9. The claim fails: the session scan runs after \<open>msgMu.Unlock()\<close> and
  \<open>sessionsHandler\<close> takes no mutex. Here Alice's message to the public room is in the
  log and the mutex is free, her handler stands before line 120; the history endpoint
  returns the message while the session list still shows the welcome text.
\<close>

theorem append_seen_before_summary_counterexample:
  "\<not> msgMu (run 0 append_then_pause) \<and>
   handlers (run 0 append_then_pause) 1 =
     Updating ''alice'' \<lparr>ID = 1, From = ''alice'', To = ''public-chat'', Content = ''hi'',
                          Timestamp = 5, IsRead = False, Avatar = ''a''\<rparr> \<and>
   messagesHandler (run 0 append_then_pause) (session_id_query ''public-chat'') =
     Some \<lparr>status = 200, content_type = Some ''application/json'',
           payload = MessagesJSON [\<lparr>ID = 1, From = ''alice'', To = ''public-chat'',
                                    Content = ''hi'', Timestamp = 5, IsRead = False,
                                    Avatar = ''a''\<rparr>]\<rparr> \<and>
   sessionsHandler (run 0 append_then_pause) =
     \<lparr>status = 200, content_type = Some ''application/json'',
      payload = SessionsJSON [public_chat 0]\<rparr> \<and>
   LastMsg (public_chat 0) \<noteq> ''hi''"
  by (simp add: run_def init_def step_defs frame_def two_clients_def string_of_byte_def
      append_then_pause_def Get_def session_id_query_def messagesHandler_def sessionsHandler_def
      public_chat_def Let_def)

text \<open>
  The order of two summary updates may even be the reverse of the order of the two
  appends, and then the summary stays behind the log once both handlers are idle.
\<close>

lemma crossed_updates_stale_summary:
  "map Content (messages (run 0 crossed_updates)) = [''first'', ''second''] \<and>
   map To (messages (run 0 crossed_updates)) = [''public-chat'', ''public-chat''] \<and>
   map LastMsg (sessions (run 0 crossed_updates)) = [''first''] \<and>
   handlers (run 0 crossed_updates) 1 = Active ''alice'' \<and>
   handlers (run 0 crossed_updates) 2 = Active ''bob''"
  by (simp add: run_def init_def step_defs frame_def two_clients_def string_of_byte_def
      crossed_updates_def public_chat_def Let_def)

text \<open>
  C9, amended. The mutex covers the id allocation with the append, and the history
  read: while it is held, a handler at line 110 does not move and a history request
  is not answered, and whenever a history request is answered in a reachable state
  the counter is one ahead of the log it returns. The session scan and the session
  list are outside the mutex: the scan is a step of its own, which runs whether or not
  the mutex is held and touches neither the log, the counter nor the mutex, and
  \<open>sessionsHandler\<close> answers from the directory in every state.
\<close>

theorem msgMu_guards_log_only:
  "(msgMu s \<and> handlers s ws = Locking u m \<longrightarrow> step s (Run ws now) = s) \<and>
   (msgMu s \<and> Get q ''session_id'' \<noteq> [] \<longrightarrow> messagesHandler s q = None) \<and>
   (messagesHandler (run t0 evs) q' = Some resp \<and> Get q' ''session_id'' \<noteq> [] \<longrightarrow>
      msgID (run t0 evs) = of_nat (Suc (length (messages (run t0 evs)))) \<and>
      payload resp =
        MessagesJSON (filter (\<lambda>m. To m = Get q' ''session_id'') (messages (run t0 evs)))) \<and>
   (handlers s' ws' = Updating u' m' \<longrightarrow>
      sessions (step s' (Run ws' now')) = update_sessions (sessions s') m' \<and>
      messages (step s' (Run ws' now')) = messages s' \<and>
      msgID (step s' (Run ws' now')) = msgID s' \<and>
      msgMu (step s' (Run ws' now')) = msgMu s') \<and>
   sessionsHandler s =
     \<lparr>status = 200, content_type = Some ''application/json'',
      payload = SessionsJSON (sessions s)\<rparr>"
proof -
  have a: "msgMu s \<and> handlers s ws = Locking u m \<longrightarrow> step s (Run ws now) = s"
    by (simp add: run_block_def)
  have b: "msgMu s \<and> Get q ''session_id'' \<noteq> [] \<longrightarrow> messagesHandler s q = None"
    by (simp add: messagesHandler_def)
  have c: "msgID (run t0 evs) = of_nat (Suc (length (messages (run t0 evs)))) \<and>
      payload resp =
        MessagesJSON (filter (\<lambda>m. To m = Get q' ''session_id'') (messages (run t0 evs)))"
    if "messagesHandler (run t0 evs) q' = Some resp" and "Get q' ''session_id'' \<noteq> []"
  proof -
    from that have free: "\<not> msgMu (run t0 evs)"
      by (auto simp: messagesHandler_def split: if_splits)
    with that have "resp = \<lparr>status = 200, content_type = Some ''application/json'',
        payload = MessagesJSON (filter (\<lambda>m. To m = Get q' ''session_id'') (messages (run t0 evs)))\<rparr>"
      by (simp add: messagesHandler_def collect_filter)
    with free run_ids [of t0 evs] show ?thesis by simp
  qed
  have d: "handlers s' ws' = Updating u' m' \<longrightarrow>
      sessions (step s' (Run ws' now')) = update_sessions (sessions s') m' \<and>
      messages (step s' (Run ws' now')) = messages s' \<and>
      msgID (step s' (Run ws' now')) = msgID s' \<and>
      msgMu (step s' (Run ws' now')) = msgMu s'"
    by (simp add: run_block_def)
  have e: "sessionsHandler s =
     \<lparr>status = 200, content_type = Some ''application/json'',
      payload = SessionsJSON (sessions s)\<rparr>"
    by (simp add: sessionsHandler_def)
  from a b c d e show ?thesis by blast
qed

theorem msgMu_guards_log_only_witness:
  "msgMu (run 0 empty_sender_schedule) \<and>
   handlers (run 0 empty_sender_schedule) 2 = Locking ''bob'' (frame ''bob'' ''public-chat'' ''hi'') \<and>
   Get (session_id_query ''public-chat'') ''session_id'' \<noteq> [] \<and>
   step (run 0 empty_sender_schedule) (Run 2 9) = run 0 empty_sender_schedule \<and>
   messagesHandler (run 0 empty_sender_schedule) (session_id_query ''public-chat'') = None \<and>
   messagesHandler (run 0 append_then_pause) (session_id_query ''public-chat'') =
     Some \<lparr>status = 200, content_type = Some ''application/json'',
           payload = MessagesJSON [\<lparr>ID = 1, From = ''alice'', To = ''public-chat'',
                                    Content = ''hi'', Timestamp = 5, IsRead = False,
                                    Avatar = ''a''\<rparr>]\<rparr> \<and>
   msgID (run 0 append_then_pause) = 2 \<and>
   handlers (run 0 append_then_pause) 1 =
     Updating ''alice'' \<lparr>ID = 1, From = ''alice'', To = ''public-chat'', Content = ''hi'',
                          Timestamp = 5, IsRead = False, Avatar = ''a''\<rparr> \<and>
   map LastMsg (sessions (step (run 0 append_then_pause) (Run 1 6))) = [''hi''] \<and>
   payload (sessionsHandler (run 0 empty_sender_schedule)) = SessionsJSON [public_chat 0]"
  using msgMu_guards_log_only [of "run 0 empty_sender_schedule" 2 "''bob''"
      "frame ''bob'' ''public-chat'' ''hi''" 9 "session_id_query ''public-chat''"
      0 append_then_pause "session_id_query ''public-chat''"
      "\<lparr>status = 200, content_type = Some ''application/json'',
           payload = MessagesJSON [\<lparr>ID = 1, From = ''alice'', To = ''public-chat'',
                                    Content = ''hi'', Timestamp = 5, IsRead = False,
                                    Avatar = ''a''\<rparr>]\<rparr>"
      "run 0 append_then_pause" 1 "''alice''"
      "\<lparr>ID = 1, From = ''alice'', To = ''public-chat'', Content = ''hi'',
                          Timestamp = 5, IsRead = False, Avatar = ''a''\<rparr>" 6]
  by (simp add: run_def init_def step_defs frame_def two_clients_def string_of_byte_def
      append_then_pause_def empty_sender_schedule_def Get_def session_id_query_def
      messagesHandler_def sessionsHandler_def public_chat_def Let_def)

end
